theory Spec2Isabelle
  imports Complex_Main "HOL-Library.Multiset"
begin

section \<open>Numbers\<close>

text \<open>
  The ratings and distances of \<^verbatim>\<open>cal_score.py\<close> are Python floats, or numpy
  \<^verbatim>\<open>float64\<close> values on the vectorized path. A finite value is modelled by the rational it
  stands for, so rounding and overflow of IEEE doubles are left out; the three special
  values are kept, because numpy produces them where Python raises. Zero is unsigned: the
  only division by zero of the source is squared right away, which removes the sign.
\<close>

datatype pyfloat = Fin rat | PInf | NInf | NaN

instantiation pyfloat :: comm_monoid_add
begin

definition zero_pyfloat :: pyfloat where
  "zero_pyfloat = Fin 0"

fun plus_pyfloat :: "pyfloat \<Rightarrow> pyfloat \<Rightarrow> pyfloat" where
  "plus_pyfloat (Fin a) (Fin b) = Fin (a + b)"
| "plus_pyfloat NaN _ = NaN"
| "plus_pyfloat _ NaN = NaN"
| "plus_pyfloat PInf NInf = NaN"
| "plus_pyfloat NInf PInf = NaN"
| "plus_pyfloat PInf _ = PInf"
| "plus_pyfloat _ PInf = PInf"
| "plus_pyfloat NInf _ = NInf"
| "plus_pyfloat _ NInf = NInf"

instance
proof
  fix x y z :: pyfloat
  show "x + y = y + x"
    by (cases x; cases y; simp)
  show "0 + x = x"
    unfolding zero_pyfloat_def by (cases x; simp)
  show "(x + y) + z = x + (y + z)"
    by (cases x; cases y; cases z; simp)
qed

end

instantiation pyfloat :: "{uminus, minus, inverse}"
begin

fun uminus_pyfloat :: "pyfloat \<Rightarrow> pyfloat" where
  "uminus_pyfloat (Fin a) = Fin (- a)"
| "uminus_pyfloat PInf = NInf"
| "uminus_pyfloat NInf = PInf"
| "uminus_pyfloat NaN = NaN"

definition minus_pyfloat :: "pyfloat \<Rightarrow> pyfloat \<Rightarrow> pyfloat" where
  "minus_pyfloat a b = a + (- b)"

text \<open>IEEE division, as numpy performs it: a zero divisor gives an infinity or NaN.\<close>

fun divide_pyfloat :: "pyfloat \<Rightarrow> pyfloat \<Rightarrow> pyfloat" where
  "divide_pyfloat NaN _ = NaN"
| "divide_pyfloat _ NaN = NaN"
| "divide_pyfloat (Fin a) (Fin b) =
     (if b = 0 then (if a = 0 then NaN else if 0 < a then PInf else NInf)
      else Fin (a / b))"
| "divide_pyfloat (Fin a) _ = Fin 0"
| "divide_pyfloat PInf (Fin b) = (if 0 \<le> b then PInf else NInf)"
| "divide_pyfloat NInf (Fin b) = (if 0 \<le> b then NInf else PInf)"
| "divide_pyfloat _ _ = NaN"

definition inverse_pyfloat :: "pyfloat \<Rightarrow> pyfloat" where
  "inverse_pyfloat a = divide (Fin 1) a"

instance ..

end

text \<open>\<^verbatim>\<open>x ** 2\<close>\<close>

fun sqr :: "pyfloat \<Rightarrow> pyfloat" where
  "sqr (Fin a) = Fin (a * a)"
| "sqr PInf = PInf"
| "sqr NInf = PInf"
| "sqr NaN = NaN"

text \<open>\<^verbatim>\<open>a != b\<close> on floats: NaN differs from everything, itself included.\<close>

definition py_ne :: "pyfloat \<Rightarrow> pyfloat \<Rightarrow> bool" where
  "py_ne a b \<longleftrightarrow> a = NaN \<or> b = NaN \<or> a \<noteq> b"

text \<open>\<^verbatim>\<open>float(i)\<close> of a Python integer.\<close>

definition float_of_int :: "int \<Rightarrow> pyfloat" where
  "float_of_int i = Fin (of_int i)"

section \<open>Errors\<close>

text \<open>
  \<^item> \<open>No_items_to_compare\<close>: the \<^verbatim>\<open>ValueError("No items to compare.")\<close> of line 90;
  \<^item> \<open>ZeroDivisionError\<close>: one of the function's own divisions (lines 101, 102, 116, 118)
    raised on Python floats;
  \<^item> \<open>Metric_raised\<close>: a call of the metric raised (in \<^verbatim>\<open>ratio_metric\<close>, the
    \<^verbatim>\<open>ZeroDivisionError\<close> of \<^verbatim>\<open>a + b == 0\<close>); nothing in the function catches it.
\<close>

datatype error = No_items_to_compare | ZeroDivisionError | Metric_raised

section \<open>The metrics (lines 25 to 34)\<close>

text \<open>
  Each \<^verbatim>\<open>def\<close> of the source runs on two kinds of arguments. Called with two Python
  floats it returns a number or raises (\<open>None\<close>). Called with a numpy array and a numpy
  scalar, as lines 98 and 112 do, it is applied element by element by numpy's
  broadcasting and nothing raises on a division by zero.
\<close>

text \<open>\<^verbatim>\<open>return a != b\<close>; the Boolean counts as 1 or 0 in the sums.\<close>

definition nominal_metric :: "pyfloat \<Rightarrow> pyfloat \<Rightarrow> pyfloat" where
  "nominal_metric a b = (if py_ne a b then Fin 1 else Fin 0)"

text \<open>\<^verbatim>\<open>return (a - b) ** 2\<close>\<close>

definition interval_metric :: "pyfloat \<Rightarrow> pyfloat \<Rightarrow> pyfloat" where
  "interval_metric a b = sqr (a - b)"

text \<open>\<^verbatim>\<open>return ((a - b) / (a + b)) ** 2\<close> on Python floats: the division raises on zero.\<close>

definition ratio_metric :: "pyfloat \<Rightarrow> pyfloat \<Rightarrow> pyfloat option" where
  "ratio_metric a b = (if a + b = Fin 0 then None else Some (sqr ((a - b) / (a + b))))"

text \<open>The same line on numpy values.\<close>

definition ratio_metric_np :: "pyfloat \<Rightarrow> pyfloat \<Rightarrow> pyfloat" where
  "ratio_metric_np a b = sqr ((a - b) / (a + b))"

text \<open>
  The \<^verbatim>\<open>metric\<close> argument. The source recognises the three built-in functions by
  identity (line 92). A custom metric is given by what it does on two Python floats and
  by what it does, element by element, on numpy values.
\<close>

datatype metric =
    Nominal
  | Interval
  | Ratio
  | Custom "pyfloat \<Rightarrow> pyfloat \<Rightarrow> pyfloat option" "pyfloat \<Rightarrow> pyfloat \<Rightarrow> pyfloat option"

text \<open>\<^verbatim>\<open>metric(gi, gj)\<close> on two Python floats.\<close>

fun metric_scalar :: "metric \<Rightarrow> pyfloat \<Rightarrow> pyfloat \<Rightarrow> pyfloat option" where
  "metric_scalar Nominal a b = Some (nominal_metric a b)"
| "metric_scalar Interval a b = Some (interval_metric a b)"
| "metric_scalar Ratio a b = ratio_metric a b"
| "metric_scalar (Custom f g) a b = f a b"

text \<open>One element of \<^verbatim>\<open>metric(gr, gri)\<close>, \<^verbatim>\<open>gr\<close> an array and \<^verbatim>\<open>gri\<close> a numpy scalar.\<close>

fun metric_np :: "metric \<Rightarrow> pyfloat \<Rightarrow> pyfloat \<Rightarrow> pyfloat option" where
  "metric_np Nominal a b = Some (nominal_metric a b)"
| "metric_np Interval a b = Some (interval_metric a b)"
| "metric_np Ratio a b = Some (ratio_metric_np a b)"
| "metric_np (Custom f g) a b = g a b"

section \<open>The dataset and its normalisation (lines 56 to 90)\<close>

text \<open>
  An item identifier is a dictionary key or the position \<^verbatim>\<open>enumerate\<close> gives; integers
  and strings stand for the hashable values of Python.
\<close>

datatype key = IntKey int | StrKey string

text \<open>
  One coder's ratings: a dictionary, given by its \<^verbatim>\<open>items()\<close> in iteration order (the keys
  of a Python dictionary are distinct), or a sequence. The raw values have any type \<open>'r\<close>.
\<close>

datatype 'r group = Dict "(key \<times> 'r) list" | Sequence "'r list"

text \<open>Lines 70 to 75: \<^verbatim>\<open>d.items()\<close>, or \<^verbatim>\<open>enumerate(d)\<close> after the \<^verbatim>\<open>AttributeError\<close>.\<close>

fun diter :: "'r group \<Rightarrow> (key \<times> 'r) list" where
  "diter (Dict kvs) = kvs"
| "diter (Sequence xs) = map (\<lambda>(i, g). (IntKey (int i), g)) (List.enumerate 0 xs)"

text \<open>
  Lines 60 to 65. The module global \<^verbatim>\<open>np\<close> is \<open>None\<close> when numpy could not be imported,
  and \<open>Some masked_singleton\<close> otherwise, with the value of \<^verbatim>\<open>np.ma.masked_singleton\<close>.
\<close>

definition maskitems_of :: "'r option \<Rightarrow> 'r list option \<Rightarrow> 'r list" where
  "maskitems_of np missing_items =
     (case missing_items of None \<Rightarrow> [] | Some ms \<Rightarrow> ms) @
     (case np of None \<Rightarrow> [] | Some masked_singleton \<Rightarrow> [masked_singleton])"

text \<open>
  Lines 79 to 84 on the dictionary \<^verbatim>\<open>units\<close>, kept as the list of its entries in insertion
  order: the value is appended to the list of its item, and a new item goes last.
\<close>

fun units_append :: "(key \<times> pyfloat list) list \<Rightarrow> key \<Rightarrow> pyfloat \<Rightarrow> (key \<times> pyfloat list) list" where
  "units_append [] it v = [(it, [v])]"
| "units_append ((k, its) # units) it v =
     (if k = it then (k, its @ [v]) # units else (k, its) # units_append units it v)"

text \<open>Lines 77 to 84: one coder. \<^verbatim>\<open>convert_items\<close> is taken as a function that returns.\<close>

definition add_group ::
  "'r list \<Rightarrow> ('r \<Rightarrow> pyfloat) \<Rightarrow> (key \<times> pyfloat list) list \<Rightarrow> 'r group \<Rightarrow> (key \<times> pyfloat list) list" where
  "add_group maskitems convert_items units d =
     fold (\<lambda>(it, g) units.
             if g \<notin> set maskitems then units_append units it (convert_items g) else units)
       (diter d) units"

text \<open>Lines 68 to 84: all coders, from the empty dictionary.\<close>

definition build_units ::
  "'r list \<Rightarrow> ('r \<Rightarrow> pyfloat) \<Rightarrow> 'r group list \<Rightarrow> (key \<times> pyfloat list) list" where
  "build_units maskitems convert_items data =
     fold (\<lambda>d units. add_group maskitems convert_items units d) data []"

text \<open>Line 86: the units with pairable values.\<close>

definition pairable :: "(key \<times> pyfloat list) list \<Rightarrow> (key \<times> pyfloat list) list" where
  "pairable units = filter (\<lambda>(it, d). length d > 1) units"

text \<open>Line 87: the number of pairable values.\<close>

definition pairable_count :: "(key \<times> pyfloat list) list \<Rightarrow> nat" where
  "pairable_count units = sum_list (map (\<lambda>(it, pv). length pv) units)"

section \<open>Observed and expected disagreement (lines 92 to 118)\<close>

text \<open>\<^verbatim>\<open>metric in (interval_metric, nominal_metric, ratio_metric)\<close>\<close>

fun built_in :: "metric \<Rightarrow> bool" where
  "built_in Interval = True"
| "built_in Nominal = True"
| "built_in Ratio = True"
| "built_in (Custom f g) = False"

text \<open>Line 92.\<close>

definition np_metric_of :: "'r option \<Rightarrow> metric \<Rightarrow> bool \<Rightarrow> bool" where
  "np_metric_of np metric force_vecmath \<longleftrightarrow>
     np \<noteq> None \<and> (built_in metric \<or> force_vecmath)"

text \<open>
  Python's \<^verbatim>\<open>sum\<close> over a generator: the terms are evaluated and added one after the
  other, and the first one that raises ends the sum.
\<close>

fun sum_from :: "pyfloat \<Rightarrow> pyfloat option list \<Rightarrow> error + pyfloat" where
  "sum_from acc [] = Inr acc"
| "sum_from acc (None # ts) = Inl Metric_raised"
| "sum_from acc (Some t # ts) = sum_from (acc + t) ts"

definition py_sum :: "pyfloat option list \<Rightarrow> error + pyfloat" where
  "py_sum ts = sum_from (Fin 0) ts"

text \<open>\<^verbatim>\<open>np.sum(metric(gr, gri))\<close>: the metric on every element of the array, then their sum.\<close>

definition np_sum_metric :: "metric \<Rightarrow> pyfloat list \<Rightarrow> pyfloat \<Rightarrow> pyfloat option" where
  "np_sum_metric metric gr gri =
     map_option sum_list (those (map (\<lambda>g. metric_np metric g gri) gr))"

text \<open>Lines 96 to 100.\<close>

definition Du :: "bool \<Rightarrow> metric \<Rightarrow> pyfloat list \<Rightarrow> error + pyfloat" where
  "Du np_metric metric grades =
     (if np_metric
      then py_sum [np_sum_metric metric grades gri. gri \<leftarrow> grades]
      else py_sum [metric_scalar metric gi gj. gi \<leftarrow> grades, gj \<leftarrow> grades])"

text \<open>
  A division of the function itself. On the scalar path the operands are Python numbers
  and a zero divisor raises; on the vectorized path the dividend is a numpy value and the
  division follows IEEE.
\<close>

definition divide_by :: "bool \<Rightarrow> pyfloat \<Rightarrow> pyfloat \<Rightarrow> error + pyfloat" where
  "divide_by np_metric a b =
     (if \<not> np_metric \<and> b = Fin 0 then Inl ZeroDivisionError else Inr (a / b))"

text \<open>Lines 95 to 101: the loop over \<^verbatim>\<open>units.values()\<close>, \<^verbatim>\<open>Do\<close> the running total.\<close>

fun Do_loop :: "bool \<Rightarrow> metric \<Rightarrow> pyfloat \<Rightarrow> pyfloat list list \<Rightarrow> error + pyfloat" where
  "Do_loop np_metric metric Do [] = Inr Do"
| "Do_loop np_metric metric Do (grades # rest) =
     (case Du np_metric metric grades of
        Inl e \<Rightarrow> Inl e
      | Inr du \<Rightarrow>
          (case divide_by np_metric du (float_of_int (int (length grades) - 1)) of
             Inl e \<Rightarrow> Inl e
           | Inr q \<Rightarrow> Do_loop np_metric metric (Do + q) rest))"

text \<open>Lines 94 to 102.\<close>

definition observed_disagreement ::
  "bool \<Rightarrow> metric \<Rightarrow> pyfloat list list \<Rightarrow> nat \<Rightarrow> error + pyfloat" where
  "observed_disagreement np_metric metric units n =
     (case Do_loop np_metric metric (Fin 0) units of
        Inl e \<Rightarrow> Inl e
      | Inr Do \<Rightarrow> divide_by np_metric Do (float_of_int (int n)))"

text \<open>The summand of line 112 or of line 115.\<close>

definition De_term :: "bool \<Rightarrow> metric \<Rightarrow> pyfloat list \<Rightarrow> pyfloat list \<Rightarrow> error + pyfloat" where
  "De_term np_metric metric g1 g2 =
     (if np_metric
      then py_sum [np_sum_metric metric g1 gj. gj \<leftarrow> g2]
      else py_sum [metric_scalar metric gi gj. gi \<leftarrow> g1, gj \<leftarrow> g2])"

text \<open>Lines 111 to 112, or 114 to 115: the loop over \<^verbatim>\<open>g2\<close>.\<close>

fun De_inner ::
  "bool \<Rightarrow> metric \<Rightarrow> pyfloat list \<Rightarrow> pyfloat \<Rightarrow> pyfloat list list \<Rightarrow> error + pyfloat" where
  "De_inner np_metric metric g1 De [] = Inr De"
| "De_inner np_metric metric g1 De (g2 # rest) =
     (case De_term np_metric metric g1 g2 of
        Inl e \<Rightarrow> Inl e
      | Inr s \<Rightarrow> De_inner np_metric metric g1 (De + s) rest)"

text \<open>Lines 108 to 115: the loop over \<^verbatim>\<open>g1\<close>.\<close>

fun De_outer ::
  "bool \<Rightarrow> metric \<Rightarrow> pyfloat list list \<Rightarrow> pyfloat \<Rightarrow> pyfloat list list \<Rightarrow> error + pyfloat" where
  "De_outer np_metric metric units De [] = Inr De"
| "De_outer np_metric metric units De (g1 # rest) =
     (case De_inner np_metric metric g1 De units of
        Inl e \<Rightarrow> Inl e
      | Inr De' \<Rightarrow> De_outer np_metric metric units De' rest)"

text \<open>Lines 107 to 116.\<close>

definition expected_disagreement ::
  "bool \<Rightarrow> metric \<Rightarrow> pyfloat list list \<Rightarrow> nat \<Rightarrow> error + pyfloat" where
  "expected_disagreement np_metric metric units n =
     (case De_outer np_metric metric units (Fin 0) units of
        Inl e \<Rightarrow> Inl e
      | Inr De \<Rightarrow> divide_by np_metric De (float_of_int (int n * (int n - 1))))"

text \<open>
  Line 118, \<^verbatim>\<open>1. - Do / De if (Do and De) else 1.\<close>; a float is true when it is not zero.
\<close>

definition coefficient :: "bool \<Rightarrow> pyfloat \<Rightarrow> pyfloat \<Rightarrow> error + pyfloat" where
  "coefficient np_metric Do De =
     (if Do \<noteq> Fin 0 \<and> De \<noteq> Fin 0
      then (case divide_by np_metric Do De of Inl e \<Rightarrow> Inl e | Inr q \<Rightarrow> Inr (Fin 1 - q))
      else Inr (Fin 1))"

text \<open>Lines 94 to 118, on the rating lists of the pairable units.\<close>

definition alpha_of_units ::
  "bool \<Rightarrow> metric \<Rightarrow> pyfloat list list \<Rightarrow> nat \<Rightarrow> error + pyfloat" where
  "alpha_of_units np_metric metric units n =
     (case observed_disagreement np_metric metric units n of
        Inl e \<Rightarrow> Inl e
      | Inr Do \<Rightarrow>
          if Do = Fin 0 then Inr (Fin 1)
          else (case expected_disagreement np_metric metric units n of
                  Inl e \<Rightarrow> Inl e
                | Inr De \<Rightarrow> coefficient np_metric Do De))"

text \<open>The function, with the module global \<^verbatim>\<open>np\<close> as its first argument.\<close>

definition krippendorff_alpha ::
  "'r option \<Rightarrow> 'r group list \<Rightarrow> metric \<Rightarrow> bool \<Rightarrow> ('r \<Rightarrow> pyfloat) \<Rightarrow> 'r list option
     \<Rightarrow> error + pyfloat" where
  "krippendorff_alpha np data metric force_vecmath convert_items missing_items =
     (let maskitems = maskitems_of np missing_items;
          units = pairable (build_units maskitems convert_items data);
          n = pairable_count units
      in if n = 0 then Inl No_items_to_compare
         else alpha_of_units (np_metric_of np metric force_vecmath) metric (map snd units) n)"

text \<open>
  A raw value for the examples: a number, or numpy's masked constant, which
  \<^verbatim>\<open>float\<close> turns into NaN.
\<close>

datatype cell = Rated rat | Masked

fun float_of_cell :: "cell \<Rightarrow> pyfloat" where
  "float_of_cell (Rated x) = Fin x"
| "float_of_cell Masked = NaN"

section \<open>Auxiliary notions for the proofs\<close>

text \<open>
  The value of the metric on one pair of ratings, on the path line 92 selects; the pairs
  on which it returns; and the sums the loops build when every call returns.
\<close>

definition metric_value :: "bool \<Rightarrow> metric \<Rightarrow> pyfloat \<Rightarrow> pyfloat \<Rightarrow> pyfloat option" where
  "metric_value np_metric metric a b = (if np_metric then metric_np metric a b else metric_scalar metric a b)"

definition defined_on :: "bool \<Rightarrow> metric \<Rightarrow> pyfloat list \<Rightarrow> pyfloat list \<Rightarrow> bool" where
  "defined_on np_metric metric g1 g2 \<longleftrightarrow>
     (\<forall>a\<in>set g1. \<forall>b\<in>set g2. metric_value np_metric metric a b \<noteq> None)"

definition pair_total :: "bool \<Rightarrow> metric \<Rightarrow> pyfloat list \<Rightarrow> pyfloat list \<Rightarrow> pyfloat" where
  "pair_total np_metric metric g1 g2 =
     (\<Sum>a\<leftarrow>g1. \<Sum>b\<leftarrow>g2. the (metric_value np_metric metric a b))"

definition within_defined :: "bool \<Rightarrow> metric \<Rightarrow> pyfloat list list \<Rightarrow> bool" where
  "within_defined np_metric metric units \<longleftrightarrow> (\<forall>g\<in>set units. defined_on np_metric metric g g)"

definition across_defined :: "bool \<Rightarrow> metric \<Rightarrow> pyfloat list list \<Rightarrow> bool" where
  "across_defined np_metric metric units \<longleftrightarrow>
     (\<forall>g1\<in>set units. \<forall>g2\<in>set units. defined_on np_metric metric g1 g2)"

definition Do_total :: "bool \<Rightarrow> metric \<Rightarrow> pyfloat list list \<Rightarrow> pyfloat" where
  "Do_total np_metric metric units =
     (\<Sum>g\<leftarrow>units. pair_total np_metric metric g g / float_of_int (int (length g) - 1))"

definition De_total :: "bool \<Rightarrow> metric \<Rightarrow> pyfloat list list \<Rightarrow> pyfloat" where
  "De_total np_metric metric units =
     (\<Sum>g1\<leftarrow>units. \<Sum>g2\<leftarrow>units. pair_total np_metric metric g1 g2)"

text \<open>The floats that are numbers.\<close>

fun is_finite :: "pyfloat \<Rightarrow> bool" where
  "is_finite (Fin a) = True"
| "is_finite _ = False"

text \<open>
  The pairs of item and converted rating one coder contributes, in the order of the
  loop of line 77; those of all coders, in the order of line 69; and the ratings of one
  item among a list of such pairs.
\<close>

definition retained :: "'r list \<Rightarrow> ('r \<Rightarrow> pyfloat) \<Rightarrow> 'r group \<Rightarrow> (key \<times> pyfloat) list" where
  "retained maskitems convert_items d =
     [(it, convert_items g). (it, g) \<leftarrow> diter d, g \<notin> set maskitems]"

definition all_retained :: "'r list \<Rightarrow> ('r \<Rightarrow> pyfloat) \<Rightarrow> 'r group list \<Rightarrow> (key \<times> pyfloat) list" where
  "all_retained maskitems convert_items data = concat (map (retained maskitems convert_items) data)"

definition ratings_of :: "(key \<times> pyfloat) list \<Rightarrow> key \<Rightarrow> pyfloat list" where
  "ratings_of ps k = map snd (filter (\<lambda>p. fst p = k) ps)"

definition collect :: "(key \<times> pyfloat) list \<Rightarrow> (key \<times> pyfloat list) list \<Rightarrow> (key \<times> pyfloat list) list" where
  "collect ps units = fold (\<lambda>(it, v) units. units_append units it v) ps units"

text \<open>
  Inside a call: the rating lists \<^verbatim>\<open>units.values()\<close> after line 86, the count \<^verbatim>\<open>n\<close> of
  line 87, and the values of \<^verbatim>\<open>Do\<close> after line 102 and of \<^verbatim>\<open>De\<close> after line 116.
\<close>

definition pairable_units ::
  "'r option \<Rightarrow> 'r group list \<Rightarrow> ('r \<Rightarrow> pyfloat) \<Rightarrow> 'r list option \<Rightarrow> pyfloat list list" where
  "pairable_units np data convert_items missing_items =
     map snd (pairable (build_units (maskitems_of np missing_items) convert_items data))"

definition n_of ::
  "'r option \<Rightarrow> 'r group list \<Rightarrow> ('r \<Rightarrow> pyfloat) \<Rightarrow> 'r list option \<Rightarrow> nat" where
  "n_of np data convert_items missing_items =
     pairable_count (pairable (build_units (maskitems_of np missing_items) convert_items data))"

definition Do_of ::
  "'r option \<Rightarrow> 'r group list \<Rightarrow> metric \<Rightarrow> bool \<Rightarrow> ('r \<Rightarrow> pyfloat) \<Rightarrow> 'r list option
     \<Rightarrow> error + pyfloat" where
  "Do_of np data metric force_vecmath convert_items missing_items =
     observed_disagreement (np_metric_of np metric force_vecmath) metric
       (pairable_units np data convert_items missing_items)
       (n_of np data convert_items missing_items)"

definition De_of ::
  "'r option \<Rightarrow> 'r group list \<Rightarrow> metric \<Rightarrow> bool \<Rightarrow> ('r \<Rightarrow> pyfloat) \<Rightarrow> 'r list option
     \<Rightarrow> error + pyfloat" where
  "De_of np data metric force_vecmath convert_items missing_items =
     expected_disagreement (np_metric_of np metric force_vecmath) metric
       (pairable_units np data convert_items missing_items)
       (n_of np data convert_items missing_items)"

section \<open>The formulas of the specification\<close>



section \<open>Example datasets\<close>

text \<open>Scenario 6 of the specification: two coders, items A and B.\<close>

definition scenario_data :: "cell group list" where
  "scenario_data =
     [Dict [(StrKey ''A'', Rated 1), (StrKey ''B'', Rated 1)],
      Dict [(StrKey ''A'', Rated 1), (StrKey ''B'', Rated 5)]]"

text \<open>Two coders who both rate one item 0.\<close>

definition zero_data :: "cell group list" where
  "zero_data = [Sequence [Rated 0], Sequence [Rated 0]]"

text \<open>
  Three coders over three items, as sequences: item 0 rated by all, item 1 by two coders,
  item 2 by one only; the third coder's array has a masked entry.
\<close>

definition table_data :: "cell group list" where
  "table_data =
     [Sequence [Rated 1, Rated 2, Masked],
      Sequence [Rated 2, Rated 4, Rated 3],
      Sequence [Rated 4, Masked, Masked]]"


text \<open>Scenario 5 of the specification: two coders who agree on the items A, B and C.\<close>

definition agreement_data :: "cell group list" where
  "agreement_data =
     [Dict [(StrKey ''A'', Rated 1), (StrKey ''B'', Rated 2), (StrKey ''C'', Rated 3)],
      Dict [(StrKey ''A'', Rated 1), (StrKey ''B'', Rated 2), (StrKey ''C'', Rated 3)]]"

section \<open>Properties of a dataset\<close>

text \<open>Every coder gives the same rating to an item: the ratings kept for it all convert to one value.\<close>

definition coders_agree :: "'r list \<Rightarrow> ('r \<Rightarrow> pyfloat) \<Rightarrow> 'r group list \<Rightarrow> bool" where
  "coders_agree maskitems convert_items data \<longleftrightarrow>
     (\<forall>d\<in>set data. \<forall>d'\<in>set data. \<forall>(it, g)\<in>set (diter d). \<forall>(it', g')\<in>set (diter d').
        it = it' \<and> g \<notin> set maskitems \<and> g' \<notin> set maskitems \<longrightarrow> convert_items g = convert_items g')"

text \<open>The metric gives distance 0 between every rating of the dataset and itself.\<close>

definition self_distance_zero ::
  "bool \<Rightarrow> metric \<Rightarrow> 'r list \<Rightarrow> ('r \<Rightarrow> pyfloat) \<Rightarrow> 'r group list \<Rightarrow> bool" where
  "self_distance_zero np_metric metric maskitems convert_items data \<longleftrightarrow>
     (\<forall>d\<in>set data. \<forall>(it, g)\<in>set (diter d).
        g \<notin> set maskitems \<longrightarrow>
        metric_value np_metric metric (convert_items g) (convert_items g) = Some (Fin 0))"






lemma Fin_0_add [simp]: "Fin 0 + a = a" "a + Fin 0 = a"
  using add_0_left [of a] add_0_right [of a] by (simp_all add: zero_pyfloat_def)

lemma sum_from_eq:
  "sum_from acc ts = (if None \<in> set ts then Inl Metric_raised else Inr (acc + sum_list (map the ts)))"
proof (induction ts arbitrary: acc)
  case Nil
  show ?case by (simp add: zero_pyfloat_def)
next
  case (Cons t ts)
  show ?case
  proof (cases t)
    case None
    then show ?thesis by simp
  next
    case (Some x)
    then show ?thesis by (simp add: Cons.IH add.assoc)
  qed
qed

lemma py_sum_eq:
  "py_sum ts = (if None \<in> set ts then Inl Metric_raised else Inr (sum_list (map the ts)))"
  by (simp add: py_sum_def sum_from_eq)

lemma those_eq: "those xs = (if None \<in> set xs then None else Some (map the xs))"
  by (induction xs) (auto split: option.splits)

lemma np_sum_metric_eq:
  "np_sum_metric m gr gri =
     (if \<exists>g\<in>set gr. metric_np m g gri = None then None
      else Some (\<Sum>g\<leftarrow>gr. the (metric_np m g gri)))"
proof (cases "\<exists>g\<in>set gr. metric_np m g gri = None")
  case True
  then have "None \<in> set (map (\<lambda>g. metric_np m g gri) gr)"
    by (force simp: image_iff)
  with True show ?thesis
    by (simp add: np_sum_metric_def those_eq)
next
  case False
  then have "None \<notin> set (map (\<lambda>g. metric_np m g gri) gr)"
    by (auto simp: image_iff)
  with False show ?thesis
    by (simp add: np_sum_metric_def those_eq comp_def)
qed

lemma sum_list_swap:
  fixes f :: "'a \<Rightarrow> 'b \<Rightarrow> 'c::comm_monoid_add"
  shows "(\<Sum>a\<leftarrow>xs. \<Sum>b\<leftarrow>ys. f a b) = (\<Sum>b\<leftarrow>ys. \<Sum>a\<leftarrow>xs. f a b)"
  by (induction xs) (simp_all add: sum_list_addf)

lemma sum_list_concat_map:
  fixes f :: "'a \<Rightarrow> 'b::comm_monoid_add"
  shows "sum_list (map f (concat xss)) = (\<Sum>xs\<leftarrow>xss. sum_list (map f xs))"
  by (induction xss) simp_all

lemma De_term_eq:
  "De_term np m g1 g2 =
     (if defined_on np m g1 g2 then Inr (pair_total np m g1 g2) else Inl Metric_raised)"
proof (cases np)
  case True
  have "None \<in> set (map (np_sum_metric m g1) g2) \<longleftrightarrow> \<not> defined_on True m g1 g2"
    by (auto simp: np_sum_metric_eq defined_on_def metric_value_def image_iff split: if_splits)
  moreover have "defined_on True m g1 g2 \<Longrightarrow>
      sum_list (map the (map (np_sum_metric m g1) g2)) = pair_total True m g1 g2"
  proof -
    assume d: "defined_on True m g1 g2"
    have "map the (map (np_sum_metric m g1) g2) = map (\<lambda>b. \<Sum>a\<leftarrow>g1. the (metric_np m a b)) g2"
    proof -
      have "the (np_sum_metric m g1 b) = (\<Sum>a\<leftarrow>g1. the (metric_np m a b))"
        if "b \<in> set g2" for b
      proof -
        from d that have "\<not> (\<exists>g\<in>set g1. metric_np m g b = None)"
          by (auto simp: defined_on_def metric_value_def)
        then show ?thesis
          by (auto simp: np_sum_metric_eq)
      qed
      then show ?thesis by simp
    qed
    then have "sum_list (map the (map (np_sum_metric m g1) g2))
        = (\<Sum>b\<leftarrow>g2. \<Sum>a\<leftarrow>g1. the (metric_np m a b))"
      by (simp only:)
    also have "\<dots> = (\<Sum>a\<leftarrow>g1. \<Sum>b\<leftarrow>g2. the (metric_np m a b))"
      by (rule sum_list_swap)
    finally show ?thesis
      by (simp add: pair_total_def metric_value_def)
  qed
  ultimately show ?thesis
    using True by (simp add: De_term_def py_sum_eq)
next
  case False
  have "None \<in> set (concat (map (\<lambda>gi. map (metric_scalar m gi) g2) g1)) \<longleftrightarrow> \<not> defined_on False m g1 g2"
    unfolding defined_on_def metric_value_def
    by (simp add: image_iff) (metis option.distinct(1) not_Some_eq)
  moreover have "sum_list (map the (concat (map (\<lambda>gi. map (metric_scalar m gi) g2) g1)))
      = pair_total False m g1 g2"
    by (simp add: pair_total_def metric_value_def sum_list_concat_map comp_def)
  ultimately show ?thesis
    using False by (simp add: De_term_def py_sum_eq)
qed

lemma Du_De_term: "Du np m grades = De_term np m grades grades"
  by (simp add: Du_def De_term_def)

lemma float_of_int_eq_0 [simp]: "float_of_int i = Fin 0 \<longleftrightarrow> i = 0"
  by (simp add: float_of_int_def)

lemma divide_by_nonzero: "b \<noteq> Fin 0 \<Longrightarrow> divide_by np a b = Inr (a / b)"
  by (simp add: divide_by_def)

lemma Do_loop_eq:
  assumes "\<forall>g\<in>set units. 2 \<le> length g"
  shows "Do_loop np m acc units =
     (if within_defined np m units then Inr (acc + Do_total np m units) else Inl Metric_raised)"
  using assms
proof (induction units arbitrary: acc)
  case Nil
  show ?case by (simp add: within_defined_def Do_total_def zero_pyfloat_def)
next
  case (Cons g units)
  from Cons.prems have len: "int (length g) - 1 \<noteq> 0" and rest: "\<forall>g\<in>set units. 2 \<le> length g"
    by auto
  show ?case
  proof (cases "defined_on np m g g")
    case True
    then show ?thesis
      using len by (simp add: Du_De_term De_term_eq divide_by_nonzero Cons.IH [OF rest]
          within_defined_def Do_total_def add.assoc)
  next
    case False
    then show ?thesis
      by (simp add: Du_De_term De_term_eq within_defined_def)
  qed
qed

lemma De_inner_eq:
  "De_inner np m g1 acc gs =
     (if \<forall>g2\<in>set gs. defined_on np m g1 g2
      then Inr (acc + (\<Sum>g2\<leftarrow>gs. pair_total np m g1 g2)) else Inl Metric_raised)"
proof (induction gs arbitrary: acc)
  case Nil
  show ?case by (simp add: zero_pyfloat_def)
next
  case (Cons g2 gs)
  show ?case
    by (cases "defined_on np m g1 g2") (simp_all add: De_term_eq Cons.IH add.assoc)
qed

lemma De_outer_eq:
  "De_outer np m units acc gs =
     (if \<forall>g1\<in>set gs. \<forall>g2\<in>set units. defined_on np m g1 g2
      then Inr (acc + (\<Sum>g1\<leftarrow>gs. \<Sum>g2\<leftarrow>units. pair_total np m g1 g2)) else Inl Metric_raised)"
proof (induction gs arbitrary: acc)
  case Nil
  show ?case by (simp add: zero_pyfloat_def)
next
  case (Cons g1 gs)
  show ?case
    by (cases "\<forall>g2\<in>set units. defined_on np m g1 g2")
      (simp_all add: De_inner_eq Cons.IH add.assoc)
qed

lemma observed_disagreement_eq:
  assumes "\<forall>g\<in>set units. 2 \<le> length g" and "n \<noteq> 0"
  shows "observed_disagreement np m units n =
     (if within_defined np m units then Inr (Do_total np m units / float_of_int (int n))
      else Inl Metric_raised)"
  using assms(2)
  by (simp add: observed_disagreement_def Do_loop_eq [OF assms(1)] divide_by_nonzero)

lemma expected_disagreement_eq:
  assumes "2 \<le> n"
  shows "expected_disagreement np m units n =
     (if across_defined np m units
      then Inr (De_total np m units / float_of_int (int n * (int n - 1)))
      else Inl Metric_raised)"
proof -
  from assms have "int n * (int n - 1) \<noteq> 0" by simp
  then show ?thesis
    by (simp add: expected_disagreement_def De_outer_eq divide_by_nonzero
        across_defined_def De_total_def)
qed

section \<open>The function in closed form\<close>

lemma pairable_length: "(it, grades) \<in> set (pairable us) \<Longrightarrow> 2 \<le> length grades"
  by (auto simp: pairable_def)

lemma pairable_units_length:
  "\<forall>g\<in>set (map snd (pairable us)). 2 \<le> length g"
  by (auto simp: pairable_def)

lemma pairable_count_eq: "pairable_count us = sum_list (map length (map snd us))"
  by (simp add: pairable_count_def comp_def case_prod_unfold)

lemma sum_list_length_ge:
  assumes "\<forall>g\<in>set gs. 2 \<le> length g" and "sum_list (map length gs) \<noteq> 0"
  shows "2 \<le> sum_list (map length gs)"
proof (cases gs)
  case Nil
  with assms(2) show ?thesis by simp
next
  case (Cons g rest)
  with assms(1) have "2 \<le> length g" by simp
  with Cons show ?thesis by simp
qed

lemma pairable_count_ge:
  "pairable_count (pairable us) \<noteq> 0 \<Longrightarrow> 2 \<le> pairable_count (pairable us)"
  unfolding pairable_count_eq
  by (rule sum_list_length_ge [OF pairable_units_length])

lemma alpha_of_units_eq:
  assumes "\<forall>g\<in>set units. 2 \<le> length g" and "2 \<le> n"
  shows "alpha_of_units np m units n =
     (if \<not> within_defined np m units then Inl Metric_raised
      else if Do_total np m units / float_of_int (int n) = Fin 0 then Inr (Fin 1)
      else if \<not> across_defined np m units then Inl Metric_raised
      else if De_total np m units / float_of_int (int n * (int n - 1)) = Fin 0 then Inr (Fin 1)
      else Inr (Fin 1 - (Do_total np m units / float_of_int (int n))
                  / (De_total np m units / float_of_int (int n * (int n - 1)))))"
proof -
  from assms(2) have n: "n \<noteq> 0" by simp
  show ?thesis
    by (simp add: alpha_of_units_def observed_disagreement_eq [OF assms(1) n]
        expected_disagreement_eq [OF assms(2)] coefficient_def divide_by_nonzero)
qed

lemma krippendorff_alpha_eq:
  "krippendorff_alpha np data metric force_vecmath convert_items missing_items =
     (if n_of np data convert_items missing_items = 0 then Inl No_items_to_compare
      else alpha_of_units (np_metric_of np metric force_vecmath) metric
             (pairable_units np data convert_items missing_items)
             (n_of np data convert_items missing_items))"
  by (simp add: krippendorff_alpha_def n_of_def pairable_units_def Let_def)

lemma pairable_units_ge2:
  "\<forall>g\<in>set (pairable_units np data convert_items missing_items). 2 \<le> length g"
  unfolding pairable_units_def by (rule pairable_units_length)


lemma n_of_ge2:
  "n_of np data convert_items missing_items \<noteq> 0 \<Longrightarrow>
     2 \<le> n_of np data convert_items missing_items"
  unfolding n_of_def by (rule pairable_count_ge)

lemma sum_list_product:
  fixes f :: "'a \<times> 'b \<Rightarrow> 'c::comm_monoid_add"
  shows "sum_list (map f (List.product xs ys)) = (\<Sum>a\<leftarrow>xs. \<Sum>b\<leftarrow>ys. f (a, b))"
  by (induction xs) (simp_all add: comp_def)

lemma pair_total_eq:
  assumes "\<forall>a\<in>set g1. \<forall>b\<in>set g2. metric_value np m a b = Some (d a b)"
  shows "pair_total np m g1 g2 = (\<Sum>(a, b)\<leftarrow>List.product g1 g2. d a b)"
proof -
  have inner: "(\<Sum>b\<leftarrow>g2. the (metric_value np m a b)) = (\<Sum>b\<leftarrow>g2. d a b)"
    if "a \<in> set g1" for a
  proof -
    have "map (\<lambda>b. the (metric_value np m a b)) g2 = map (\<lambda>b. d a b) g2"
      using assms that by simp
    then show ?thesis by (simp only:)
  qed
  have "map (\<lambda>a. \<Sum>b\<leftarrow>g2. the (metric_value np m a b)) g1 = map (\<lambda>a. \<Sum>b\<leftarrow>g2. d a b) g1"
    using inner by simp
  then show ?thesis
    unfolding pair_total_def sum_list_product by (simp only: prod.case)
qed

lemma defined_on_Some:
  "\<forall>a\<in>set g1. \<forall>b\<in>set g2. metric_value np m a b = Some (d a b) \<Longrightarrow> defined_on np m g1 g2"
  by (simp add: defined_on_def)

section \<open>Outcomes of a call\<close>

lemma alpha_of_units_cases:
  assumes "\<forall>g\<in>set units. 2 \<le> length g" and "2 \<le> n"
  shows "(\<exists>c. alpha_of_units np m units n = Inr c) \<or> alpha_of_units np m units n = Inl Metric_raised"
  by (simp add: alpha_of_units_eq [OF assms])


lemma krippendorff_alpha_cases:
  "krippendorff_alpha np data metric force_vecmath convert_items missing_items
     = Inl No_items_to_compare
   \<and> n_of np data convert_items missing_items = 0
   \<or> n_of np data convert_items missing_items \<noteq> 0
   \<and> ((\<exists>c. krippendorff_alpha np data metric force_vecmath convert_items missing_items = Inr c)
      \<or> krippendorff_alpha np data metric force_vecmath convert_items missing_items
          = Inl Metric_raised)"
proof (cases "n_of np data convert_items missing_items = 0")
  case True
  then show ?thesis by (simp add: krippendorff_alpha_eq)
next
  case False
  from alpha_of_units_cases [OF pairable_units_ge2 n_of_ge2 [OF False]] False
  show ?thesis by (simp add: krippendorff_alpha_eq)
qed



section \<open>The two paths, and values that are not finite\<close>



lemma not_finite_add: "\<not> is_finite a \<Longrightarrow> \<not> is_finite (a + b)" "\<not> is_finite a \<Longrightarrow> \<not> is_finite (b + a)"
  by (cases a; cases b; simp)+

lemma not_finite_sum_list:
  "x \<in> set xs \<Longrightarrow> \<not> is_finite x \<Longrightarrow> \<not> is_finite (sum_list xs)"
  by (induction xs) (auto simp: not_finite_add)

lemma not_finite_divide_Fin: "\<not> is_finite a \<Longrightarrow> \<not> is_finite (a / Fin r)"
  by (cases a) simp_all

lemma not_finite_divide: "\<not> is_finite a \<Longrightarrow> \<not> is_finite b \<Longrightarrow> a / b = NaN"
  by (cases a; cases b) simp_all

lemma not_finite_neq_Fin: "\<not> is_finite a \<Longrightarrow> a \<noteq> Fin r"
  by (cases a) simp_all

lemma ratio_metric_np_zero_sum:
  assumes "a + b = Fin 0"
  shows "ratio_metric_np a b = PInf \<or> ratio_metric_np a b = NaN"
proof -
  from assms obtain x y where "a = Fin x" "b = Fin y" "x + y = 0"
    by (cases a; cases b) simp_all
  then show ?thesis
    by (simp add: ratio_metric_np_def minus_pyfloat_def)
qed

lemma pair_total_not_finite:
  assumes "x \<in> set g1" "y \<in> set g2" "\<not> is_finite (the (metric_value np m x y))"
  shows "\<not> is_finite (pair_total np m g1 g2)"
proof -
  have "\<not> is_finite (\<Sum>b\<leftarrow>g2. the (metric_value np m x b))"
    by (rule not_finite_sum_list [of "the (metric_value np m x y)"]) (use assms in auto)
  then show ?thesis
    unfolding pair_total_def
    by (rule not_finite_sum_list [rotated]) (use assms(1) in auto)
qed

lemma alpha_of_units_NaN:
  assumes len: "\<forall>g\<in>set units. 2 \<le> length g" and n: "2 \<le> n"
    and defd: "across_defined np m units"
    and g: "g \<in> set units" "x \<in> set g" "y \<in> set g"
    and nf: "\<not> is_finite (the (metric_value np m x y))"
  shows "alpha_of_units np m units n = Inr NaN"
proof -
  have pt: "\<not> is_finite (pair_total np m g g)"
    by (rule pair_total_not_finite [OF g(2,3) nf])
  have "\<not> is_finite (pair_total np m g g / float_of_int (int (length g) - 1))"
    unfolding float_of_int_def by (rule not_finite_divide_Fin [OF pt])
  then have "\<not> is_finite (Do_total np m units)"
    unfolding Do_total_def
    by (rule not_finite_sum_list [rotated]) (use g(1) in auto)
  then have Do: "\<not> is_finite (Do_total np m units / float_of_int (int n))"
    unfolding float_of_int_def by (rule not_finite_divide_Fin)
  have "\<not> is_finite (\<Sum>g2\<leftarrow>units. pair_total np m g g2)"
    by (rule not_finite_sum_list [OF _ pt]) (use g(1) in auto)
  then have "\<not> is_finite (De_total np m units)"
    unfolding De_total_def
    by (rule not_finite_sum_list [rotated]) (use g(1) in auto)
  then have De: "\<not> is_finite (De_total np m units / float_of_int (int n * (int n - 1)))"
    unfolding float_of_int_def by (rule not_finite_divide_Fin)
  from defd have wd: "within_defined np m units"
    by (simp add: across_defined_def within_defined_def)
  show ?thesis
    by (simp add: alpha_of_units_eq [OF len n] wd defd not_finite_neq_Fin [OF Do]
        not_finite_neq_Fin [OF De] not_finite_divide [OF Do De] minus_pyfloat_def)
qed

section \<open>The normalised dictionary\<close>

lemma fold_retained:
  "fold (\<lambda>(it, g) units. if g \<notin> set maskitems then units_append units it (conv g) else units) xs us
     = collect [(it, conv g). (it, g) \<leftarrow> xs, g \<notin> set maskitems] us"
  by (induction xs arbitrary: us) (auto simp: collect_def)

lemma add_group_collect: "add_group maskitems conv us d = collect (retained maskitems conv d) us"
  by (simp add: add_group_def retained_def fold_retained)

lemma collect_append: "collect (ps @ qs) us = collect qs (collect ps us)"
  by (simp add: collect_def)

lemma fold_collect_concat:
  "fold (\<lambda>d. collect (R d)) data us = collect (concat (map R data)) us"
  by (induction data arbitrary: us) (simp_all add: collect_def)

lemma build_units_collect:
  "build_units maskitems conv data = collect (all_retained maskitems conv data) []"
proof -
  have "(\<lambda>d units. add_group maskitems conv units d) = (\<lambda>d. collect (retained maskitems conv d))"
    by (simp add: add_group_collect fun_eq_iff)
  then show ?thesis
    by (simp add: build_units_def all_retained_def fold_collect_concat)
qed

lemma keys_units_append:
  "map fst (units_append us it v) = (if it \<in> fst ` set us then map fst us else map fst us @ [it])"
  by (induction us) (force simp: image_iff)+

lemma map_of_units_append:
  "map_of (units_append us it v) k =
     (if k = it then Some (case map_of us it of None \<Rightarrow> [v] | Some vs \<Rightarrow> vs @ [v])
      else map_of us k)"
  by (induction us) auto

lemma collect_Cons: "collect ((it, v) # ps) us = collect ps (units_append us it v)"
  by (simp add: collect_def)

lemma distinct_keys_collect: "distinct (map fst us) \<Longrightarrow> distinct (map fst (collect ps us))"
proof (induction ps arbitrary: us)
  case Nil
  then show ?case by (simp add: collect_def)
next
  case (Cons p ps)
  obtain it v where p: "p = (it, v)" by (cases p)
  from Cons.prems have "distinct (map fst (units_append us it v))"
    by (simp add: keys_units_append)
  then show ?case
    unfolding p collect_Cons by (rule Cons.IH)
qed

lemma ratings_of_Cons:
  "ratings_of ((it, v) # ps) k = (if it = k then v # ratings_of ps k else ratings_of ps k)"
  by (simp add: ratings_of_def)

lemma ratings_of_Nil_iff: "ratings_of ps k = [] \<longleftrightarrow> k \<notin> fst ` set ps"
  by (induction ps) (auto simp: ratings_of_def)

lemma map_of_collect:
  "map_of (collect ps us) k =
     (case map_of us k of
        None \<Rightarrow> (if k \<in> fst ` set ps then Some (ratings_of ps k) else None)
      | Some vs \<Rightarrow> Some (vs @ ratings_of ps k))"
proof (induction ps arbitrary: us)
  case Nil
  show ?case by (simp add: collect_def ratings_of_def split: option.splits)
next
  case (Cons p ps)
  obtain it v where p: "p = (it, v)" by (cases p)
  show ?case
    unfolding p collect_Cons Cons.IH
    by (auto simp: map_of_units_append ratings_of_Cons split: option.splits)
qed

lemma collect_entries:
  assumes "(k, vs) \<in> set (collect ps [])"
  shows "vs = ratings_of ps k" and "k \<in> fst ` set ps"
proof -
  have "distinct (map fst (collect ps []))"
    by (rule distinct_keys_collect) simp
  with assms have "map_of (collect ps []) k = Some vs"
    by simp
  then show "vs = ratings_of ps k" and "k \<in> fst ` set ps"
    by (auto simp: map_of_collect split: if_splits)
qed



lemma ratings_of_member:
  "x \<in> set (ratings_of (all_retained maskitems conv data) k) \<longleftrightarrow>
     (\<exists>d\<in>set data. \<exists>g. (k, g) \<in> set (diter d) \<and> g \<notin> set maskitems \<and> x = conv g)"
  by (auto simp: ratings_of_def all_retained_def retained_def image_iff)

lemma build_units_member:
  assumes "(k, vs) \<in> set (build_units maskitems conv data)" and "x \<in> set vs"
  shows "\<exists>d\<in>set data. \<exists>g. (k, g) \<in> set (diter d) \<and> g \<notin> set maskitems \<and> x = conv g"
  using assms collect_entries(1) [of k vs "all_retained maskitems conv data"]
  by (simp add: build_units_collect ratings_of_member)

section \<open>Datasets without disagreement\<close>

lemma sum_list_all_Fin_0: "(\<forall>x\<in>set xs. f x = Fin 0) \<Longrightarrow> sum_list (map f xs) = Fin 0"
  by (induction xs) (simp_all add: zero_pyfloat_def)

lemma Fin_0_divide: "r \<noteq> 0 \<Longrightarrow> Fin 0 / float_of_int r = Fin 0"
  by (simp add: float_of_int_def)

lemma coders_agreeD:
  assumes "coders_agree ms conv data" "d \<in> set data" "d' \<in> set data"
    "(k, r) \<in> set (diter d)" "(k, r') \<in> set (diter d')" "r \<notin> set ms" "r' \<notin> set ms"
  shows "conv r = conv r'"
proof -
  note 1 = assms(1) [unfolded coders_agree_def, THEN bspec, OF assms(2), THEN bspec, OF assms(3),
      THEN bspec, OF assms(4)]
  from 1 have 2: "\<forall>(it', g')\<in>set (diter d').
      k = it' \<and> r \<notin> set ms \<and> g' \<notin> set ms \<longrightarrow> conv r = conv g'"
    by simp
  from 2 [THEN bspec, OF assms(5)] assms(6,7) show ?thesis by simp
qed

lemma self_distance_zeroD:
  assumes "self_distance_zero vec m ms conv data" "d \<in> set data" "(k, r) \<in> set (diter d)"
    "r \<notin> set ms"
  shows "metric_value vec m (conv r) (conv r) = Some (Fin 0)"
  using assms(1) [unfolded self_distance_zero_def, THEN bspec, OF assms(2), THEN bspec, OF assms(3)]
    assms(4)
  by simp

lemma pairable_units_key:
  assumes "g \<in> set (pairable_units np data conv miss)"
  obtains k where "(k, g) \<in> set (build_units (maskitems_of np miss) conv data)"
proof -
  from assms obtain p where "p \<in> set (pairable (build_units (maskitems_of np miss) conv data))"
    and "g = snd p"
    unfolding pairable_units_def by (auto simp: image_iff)
  then have "(fst p, g) \<in> set (build_units (maskitems_of np miss) conv data)"
    by (simp add: pairable_def)
  then show ?thesis by (rule that)
qed


lemma agreement_Do_total:
  assumes agree: "coders_agree (maskitems_of np miss) conv data"
    and zero: "self_distance_zero vec m (maskitems_of np miss) conv data"
  shows "within_defined vec m (pairable_units np data conv miss)"
    and "Do_total vec m (pairable_units np data conv miss) = Fin 0"
proof -
  let ?units = "pairable_units np data conv miss"
  have val: "\<forall>a\<in>set g. \<forall>b\<in>set g. metric_value vec m a b = Some (Fin 0)"
    if g: "g \<in> set ?units" for g
  proof (intro ballI)
    fix a b assume a: "a \<in> set g" and b: "b \<in> set g"
    from g obtain k where k: "(k, g) \<in> set (build_units (maskitems_of np miss) conv data)"
      by (rule pairable_units_key)
    from build_units_member [OF k a] obtain d r where r: "d \<in> set data" "(k, r) \<in> set (diter d)"
      "r \<notin> set (maskitems_of np miss)" "a = conv r" by blast
    from build_units_member [OF k b] obtain d' r' where r': "d' \<in> set data"
      "(k, r') \<in> set (diter d')" "r' \<notin> set (maskitems_of np miss)" "b = conv r'" by blast
    have "a = b"
      unfolding r(4) r'(4) by (rule coders_agreeD [OF agree r(1) r'(1) r(2) r'(2) r(3) r'(3)])
    moreover have "metric_value vec m a a = Some (Fin 0)"
      unfolding r(4) by (rule self_distance_zeroD [OF zero r(1,2,3)])
    ultimately show "metric_value vec m a b = Some (Fin 0)" by simp
  qed
  have "defined_on vec m g g" if "g \<in> set ?units" for g
    by (rule defined_on_Some [where d = "\<lambda>_ _. Fin 0"]) (rule val [OF that])
  then show "within_defined vec m ?units"
    by (simp add: within_defined_def)
  have "pair_total vec m g g / float_of_int (int (length g) - 1) = Fin 0"
    if g: "g \<in> set ?units" for g
  proof -
    have "pair_total vec m g g = (\<Sum>(a, b)\<leftarrow>List.product g g. Fin 0)"
      by (rule pair_total_eq [OF val [OF g]])
    also have "\<dots> = Fin 0"
      by (rule sum_list_all_Fin_0) (simp add: case_prod_unfold)
    finally have pt: "pair_total vec m g g = Fin 0" .
    from g have "2 \<le> length g"
      using pairable_units_ge2 [of np data conv miss] by (rule_tac bspec)
    then have "int (length g) - 1 \<noteq> 0" by simp
    then show ?thesis
      unfolding pt by (rule Fin_0_divide)
  qed
  then show "Do_total vec m ?units = Fin 0"
    unfolding Do_total_def by (intro sum_list_all_Fin_0 ballI)
qed

section \<open>Independence of the order of ratings and of items\<close>









section \<open>The result depends on the retained pairs as a multiset only\<close>















section \<open>The claims\<close>

text \<open>
  Claim C9, as the code has it. On the dataset of scenario 6 with the nominal metric,
  item A contributes 0 and item B contributes 2, the sum of the metric over its four
  ordered pairs divided by \<open>k - 1 = 1\<close>; over \<open>n = 4\<close> values the observed
  disagreement is 1/2, not 1/8. The expected disagreement is 1/2 as well and alpha is 0,
  strictly below 1. This holds with and without numpy.
\<close>

theorem scenario_nominal_values:
  "n_of None scenario_data float_of_cell None = 4
   \<and> Do_of None scenario_data Nominal False float_of_cell None = Inr (Fin (1 / 2))
   \<and> De_of None scenario_data Nominal False float_of_cell None = Inr (Fin (1 / 2))
   \<and> krippendorff_alpha None scenario_data Nominal False float_of_cell None = Inr (Fin 0)
   \<and> n_of (Some Masked) scenario_data float_of_cell None = 4
   \<and> Do_of (Some Masked) scenario_data Nominal False float_of_cell None = Inr (Fin (1 / 2))
   \<and> De_of (Some Masked) scenario_data Nominal False float_of_cell None = Inr (Fin (1 / 2))
   \<and> krippendorff_alpha (Some Masked) scenario_data Nominal False float_of_cell None
       = Inr (Fin 0)"
  by code_simp

text \<open>
  Claim C9 as stated fails: the observed disagreement the function computes on that
  dataset is not 0.125.
\<close>

theorem scenario_observed_disagreement_not_eighth:
  "Do_of None scenario_data Nominal False float_of_cell None \<noteq> Inr (Fin (1 / 8))
   \<and> Do_of (Some Masked) scenario_data Nominal False float_of_cell None \<noteq> Inr (Fin (1 / 8))"
  by code_simp





text \<open>
  Claim C10. After line 86 every rating list has two ratings at least, so the divisor
  \<open>float(len(grades) - 1)\<close> of line 101 is not zero; in a call that does not raise the
  insufficient-data error \<open>n\<close> is 2 at least, so the divisor \<open>float(n * (n - 1))\<close> of
  line 116 is not zero; and no division of the function raises a division by zero.
\<close>

theorem divisions_never_by_zero:
  "(\<forall>(it, grades)\<in>set (pairable (build_units (maskitems_of np missing_items) convert_items data)).
       2 \<le> length grades \<and> float_of_int (int (length grades) - 1) \<noteq> Fin 0)
   \<and> (krippendorff_alpha np data metric force_vecmath convert_items missing_items
         \<noteq> Inl No_items_to_compare \<longrightarrow>
       2 \<le> n_of np data convert_items missing_items
       \<and> float_of_int (int (n_of np data convert_items missing_items)
            * (int (n_of np data convert_items missing_items) - 1)) \<noteq> Fin 0)
   \<and> krippendorff_alpha np data metric force_vecmath convert_items missing_items
       \<noteq> Inl ZeroDivisionError"
proof (intro conjI impI)
  show "\<forall>(it, grades)\<in>set (pairable (build_units (maskitems_of np missing_items) convert_items data)).
      2 \<le> length grades \<and> float_of_int (int (length grades) - 1) \<noteq> Fin 0"
    using pairable_length by fastforce
next
  assume "krippendorff_alpha np data metric force_vecmath convert_items missing_items
      \<noteq> Inl No_items_to_compare"
  then have "n_of np data convert_items missing_items \<noteq> 0"
    using krippendorff_alpha_cases [of np data metric force_vecmath convert_items missing_items]
    by auto
  then have n2: "2 \<le> n_of np data convert_items missing_items"
    by (rule n_of_ge2)
  then show "2 \<le> n_of np data convert_items missing_items" .
  from n2 show "float_of_int (int (n_of np data convert_items missing_items)
      * (int (n_of np data convert_items missing_items) - 1)) \<noteq> Fin 0"
    by simp
next
  show "krippendorff_alpha np data metric force_vecmath convert_items missing_items
      \<noteq> Inl ZeroDivisionError"
    using krippendorff_alpha_cases [of np data metric force_vecmath convert_items missing_items]
    by auto
qed

theorem divisions_never_by_zero_witness:
  "krippendorff_alpha None table_data Ratio False float_of_cell (Some [Masked]) = Inr (Fin (- (25 / 156)))
   \<and> pairable (build_units (maskitems_of None (Some [Masked])) float_of_cell table_data)
       = [(IntKey 0, [Fin 1, Fin 2, Fin 4]), (IntKey 1, [Fin 2, Fin 4])]
   \<and> 2 \<le> n_of None table_data float_of_cell (Some [Masked])
   \<and> float_of_int (int (n_of None table_data float_of_cell (Some [Masked]))
        * (int (n_of None table_data float_of_cell (Some [Masked])) - 1)) \<noteq> Fin 0
   \<and> krippendorff_alpha None table_data Ratio False float_of_cell (Some [Masked])
       \<noteq> Inl ZeroDivisionError"
proof -
  have v: "krippendorff_alpha None table_data Ratio False float_of_cell (Some [Masked])
      = Inr (Fin (- (25 / 156)))"
    by code_simp
  have u: "pairable (build_units (maskitems_of None (Some [Masked])) float_of_cell table_data)
      = [(IntKey 0, [Fin 1, Fin 2, Fin 4]), (IntKey 1, [Fin 2, Fin 4])]"
    by code_simp
  have h: "krippendorff_alpha None table_data Ratio False float_of_cell (Some [Masked])
      \<noteq> Inl No_items_to_compare"
    by (simp add: v)
  from divisions_never_by_zero [of None "Some [Masked]" float_of_cell table_data Ratio False] h v u
  show ?thesis by simp
qed







text \<open>
  Claim C1, as the code has it. In a call with \<open>n > 0\<close>: when the observed
  disagreement is 0 the result is 1.0; when it is another value \<open>Do\<close> and the expected
  disagreement is \<open>De\<close>, the result is \<open>1 - Do/De\<close>, or 1.0 when \<open>De\<close> is 0; an
  exception of the metric in either computation reaches the caller. In particular the
  result is 1.0 for every dataset in which the coders agree on every item, provided the
  metric gives distance 0 between each rating and itself: the nominal and the interval
  metric do on every number, the ratio metric on every number but 0.
\<close>

theorem coefficient_rule:
  "(n_of np data convert_items missing_items \<noteq> 0 \<longrightarrow>
     (Do_of np data metric force_vecmath convert_items missing_items = Inr (Fin 0) \<longrightarrow>
        krippendorff_alpha np data metric force_vecmath convert_items missing_items = Inr (Fin 1))
   \<and> (\<forall>Do De. Do_of np data metric force_vecmath convert_items missing_items = Inr Do
          \<and> Do \<noteq> Fin 0
          \<and> De_of np data metric force_vecmath convert_items missing_items = Inr De \<longrightarrow>
        krippendorff_alpha np data metric force_vecmath convert_items missing_items
          = Inr (if De = Fin 0 then Fin 1 else Fin 1 - Do / De))
   \<and> (\<forall>e. Do_of np data metric force_vecmath convert_items missing_items = Inl e \<longrightarrow>
        krippendorff_alpha np data metric force_vecmath convert_items missing_items = Inl e)
   \<and> (\<forall>Do e. Do_of np data metric force_vecmath convert_items missing_items = Inr Do
          \<and> Do \<noteq> Fin 0
          \<and> De_of np data metric force_vecmath convert_items missing_items = Inl e \<longrightarrow>
        krippendorff_alpha np data metric force_vecmath convert_items missing_items = Inl e)
   \<and> (coders_agree (maskitems_of np missing_items) convert_items data
       \<and> self_distance_zero (np_metric_of np metric force_vecmath) metric
           (maskitems_of np missing_items) convert_items data \<longrightarrow>
        Do_of np data metric force_vecmath convert_items missing_items = Inr (Fin 0)
        \<and> krippendorff_alpha np data metric force_vecmath convert_items missing_items
            = Inr (Fin 1)))
   \<and> (\<forall>vec x. metric_value vec Nominal (Fin x) (Fin x) = Some (Fin 0))
   \<and> (\<forall>vec x. metric_value vec Interval (Fin x) (Fin x) = Some (Fin 0))
   \<and> (\<forall>vec x. x \<noteq> 0 \<longrightarrow> metric_value vec Ratio (Fin x) (Fin x) = Some (Fin 0))"
proof (intro conjI allI)
  show "metric_value vec Nominal (Fin x) (Fin x) = Some (Fin 0)" for vec x
    by (simp add: metric_value_def nominal_metric_def py_ne_def)
  show "metric_value vec Interval (Fin x) (Fin x) = Some (Fin 0)" for vec x
    by (simp add: metric_value_def interval_metric_def minus_pyfloat_def)
  show "x \<noteq> 0 \<longrightarrow> metric_value vec Ratio (Fin x) (Fin x) = Some (Fin 0)" for vec x
    by (simp add: metric_value_def ratio_metric_def ratio_metric_np_def minus_pyfloat_def)
next
  let ?n = "n_of np data convert_items missing_items"
  let ?units = "pairable_units np data convert_items missing_items"
  let ?vec = "np_metric_of np metric force_vecmath"
  let ?Do = "Do_of np data metric force_vecmath convert_items missing_items"
  let ?De = "De_of np data metric force_vecmath convert_items missing_items"
  let ?alpha = "krippendorff_alpha np data metric force_vecmath convert_items missing_items"
  show "?n \<noteq> 0 \<longrightarrow>
    (?Do = Inr (Fin 0) \<longrightarrow> ?alpha = Inr (Fin 1))
    \<and> (\<forall>Do De. ?Do = Inr Do \<and> Do \<noteq> Fin 0 \<and> ?De = Inr De \<longrightarrow>
         ?alpha = Inr (if De = Fin 0 then Fin 1 else Fin 1 - Do / De))
    \<and> (\<forall>e. ?Do = Inl e \<longrightarrow> ?alpha = Inl e)
    \<and> (\<forall>Do e. ?Do = Inr Do \<and> Do \<noteq> Fin 0 \<and> ?De = Inl e \<longrightarrow> ?alpha = Inl e)
    \<and> (coders_agree (maskitems_of np missing_items) convert_items data
        \<and> self_distance_zero ?vec metric (maskitems_of np missing_items) convert_items data \<longrightarrow>
       ?Do = Inr (Fin 0) \<and> ?alpha = Inr (Fin 1))"
  proof
    assume n: "?n \<noteq> 0"
    have alpha: "?alpha = alpha_of_units ?vec metric ?units ?n"
      using n by (simp add: krippendorff_alpha_eq)
    have r1: "?alpha = Inr (Fin 1)" if "?Do = Inr (Fin 0)"
      using that by (simp add: alpha alpha_of_units_def Do_of_def)
    have r2: "?alpha = Inr (if De = Fin 0 then Fin 1 else Fin 1 - Do / De)"
      if "?Do = Inr Do \<and> Do \<noteq> Fin 0 \<and> ?De = Inr De" for Do De
      using that
      by (simp add: alpha alpha_of_units_def Do_of_def De_of_def coefficient_def divide_by_def)
    have r3: "?alpha = Inl e" if "?Do = Inl e" for e
      using that by (simp add: alpha alpha_of_units_def Do_of_def)
    have r4: "?alpha = Inl e" if "?Do = Inr Do \<and> Do \<noteq> Fin 0 \<and> ?De = Inl e" for Do e
      using that by (simp add: alpha alpha_of_units_def Do_of_def De_of_def)
    have r5: "?Do = Inr (Fin 0) \<and> ?alpha = Inr (Fin 1)"
      if "coders_agree (maskitems_of np missing_items) convert_items data
        \<and> self_distance_zero ?vec metric (maskitems_of np missing_items) convert_items data"
    proof -
      from that have a: "coders_agree (maskitems_of np missing_items) convert_items data"
        and z: "self_distance_zero ?vec metric (maskitems_of np missing_items) convert_items data"
        by simp_all
      have "?Do = Inr (Fin 0)"
        unfolding Do_of_def observed_disagreement_eq [OF pairable_units_ge2 n]
        using n by (simp add: agreement_Do_total [OF a z] Fin_0_divide)
      with r1 show ?thesis by simp
    qed
    from r1 r2 r3 r4 r5
    show "(?Do = Inr (Fin 0) \<longrightarrow> ?alpha = Inr (Fin 1))
      \<and> (\<forall>Do De. ?Do = Inr Do \<and> Do \<noteq> Fin 0 \<and> ?De = Inr De \<longrightarrow>
           ?alpha = Inr (if De = Fin 0 then Fin 1 else Fin 1 - Do / De))
      \<and> (\<forall>e. ?Do = Inl e \<longrightarrow> ?alpha = Inl e)
      \<and> (\<forall>Do e. ?Do = Inr Do \<and> Do \<noteq> Fin 0 \<and> ?De = Inl e \<longrightarrow> ?alpha = Inl e)
      \<and> (coders_agree (maskitems_of np missing_items) convert_items data
          \<and> self_distance_zero ?vec metric (maskitems_of np missing_items) convert_items data \<longrightarrow>
         ?Do = Inr (Fin 0) \<and> ?alpha = Inr (Fin 1))"
      by blast
  qed
qed

theorem coefficient_rule_witness:
  "krippendorff_alpha (Some Masked) agreement_data Interval False float_of_cell None = Inr (Fin 1)
   \<and> Do_of (Some Masked) agreement_data Interval False float_of_cell None = Inr (Fin 0)
   \<and> krippendorff_alpha (Some Masked) table_data Interval False float_of_cell None
       = Inr (Fin 1 - Fin (22 / 5) / Fin (18 / 5))"
proof -
  have n: "n_of (Some Masked) agreement_data float_of_cell None \<noteq> 0"
    by code_simp
  have a: "coders_agree (maskitems_of (Some Masked) None) float_of_cell agreement_data"
    by code_simp
  have z: "self_distance_zero (np_metric_of (Some Masked) Interval False) Interval
      (maskitems_of (Some Masked) None) float_of_cell agreement_data"
    by code_simp
  have n': "n_of (Some Masked) table_data float_of_cell None \<noteq> 0"
    by code_simp
  have Do: "Do_of (Some Masked) table_data Interval False float_of_cell None = Inr (Fin (22 / 5))"
    by code_simp
  have De: "De_of (Some Masked) table_data Interval False float_of_cell None = Inr (Fin (18 / 5))"
    by code_simp
  have nz: "Fin (22 / 5) \<noteq> Fin 0" "Fin (18 / 5) \<noteq> Fin 0"
    by simp_all
  from coefficient_rule [of "Some Masked" agreement_data float_of_cell None Interval False] n a z
  have 1: "Do_of (Some Masked) agreement_data Interval False float_of_cell None = Inr (Fin 0)
    \<and> krippendorff_alpha (Some Masked) agreement_data Interval False float_of_cell None
        = Inr (Fin 1)"
    by blast
  from coefficient_rule [of "Some Masked" table_data float_of_cell None Interval False] n' Do De nz
  have 2: "krippendorff_alpha (Some Masked) table_data Interval False float_of_cell None
      = Inr (Fin 1 - Fin (22 / 5) / Fin (18 / 5))"
    by simp
  from 1 2 show ?thesis by simp
qed

text \<open>
  Claim C1 as stated fails for the ratio metric: when two coders both rate one item 0,
  they agree on every item and \<open>n = 2\<close>, yet the call does not return 1.0: the metric
  divides 0 by 0, which raises on Python floats and gives NaN with numpy.
\<close>

theorem agreement_on_zero_is_not_one:
  "coders_agree (maskitems_of None None) float_of_cell zero_data
   \<and> n_of None zero_data float_of_cell None = 2
   \<and> krippendorff_alpha None zero_data Ratio False float_of_cell None = Inl Metric_raised
   \<and> coders_agree (maskitems_of (Some Masked) None) float_of_cell zero_data
   \<and> n_of (Some Masked) zero_data float_of_cell None = 2
   \<and> krippendorff_alpha (Some Masked) zero_data Ratio False float_of_cell None = Inr NaN"
  by code_simp

text \<open>
  Claim C8. On Python floats \<^verbatim>\<open>ratio_metric(a, b)\<close> is \<open>((a - b) / (a + b))\<^sup>2\<close>
  when \<open>a + b \<noteq> 0\<close>, and the division raises when \<open>a + b = 0\<close>; on numpy values the
  same division gives infinity, or NaN for \<open>0/0\<close>. Nothing in the function guards it:
  when two ratings of one pairable item sum to zero (a rating 0 with itself included), a
  call with the ratio metric ends with the metric's exception when numpy is absent, and
  returns NaN when numpy is present.
\<close>

theorem ratio_metric_unguarded:
  "(a + b \<noteq> Fin 0 \<longrightarrow> ratio_metric a b = Some (sqr ((a - b) / (a + b))))
   \<and> (a + b = Fin 0 \<longrightarrow>
        ratio_metric a b = None \<and> (ratio_metric_np a b = PInf \<or> ratio_metric_np a b = NaN))
   \<and> (n_of np data convert_items missing_items \<noteq> 0
       \<and> (\<exists>g\<in>set (pairable_units np data convert_items missing_items).
            \<exists>x\<in>set g. \<exists>y\<in>set g. x + y = Fin 0) \<longrightarrow>
        krippendorff_alpha np data Ratio force_vecmath convert_items missing_items
          = (if np = None then Inl Metric_raised else Inr NaN))"
proof (intro conjI impI)
  assume "a + b \<noteq> Fin 0"
  then show "ratio_metric a b = Some (sqr ((a - b) / (a + b)))"
    by (simp add: ratio_metric_def)
next
  assume "a + b = Fin 0"
  then show "ratio_metric a b = None"
    by (simp add: ratio_metric_def)
next
  assume "a + b = Fin 0"
  then show "ratio_metric_np a b = PInf \<or> ratio_metric_np a b = NaN"
    by (rule ratio_metric_np_zero_sum)
next
  let ?n = "n_of np data convert_items missing_items"
  let ?units = "pairable_units np data convert_items missing_items"
  assume h: "?n \<noteq> 0 \<and> (\<exists>g\<in>set ?units. \<exists>x\<in>set g. \<exists>y\<in>set g. x + y = Fin 0)"
  then have n0: "?n \<noteq> 0" by simp
  from h obtain g x y where g: "g \<in> set ?units" "x \<in> set g" "y \<in> set g" and xy: "x + y = Fin 0"
    by blast
  have n2: "2 \<le> ?n" by (rule n_of_ge2 [OF n0])
  note len = pairable_units_ge2 [of np data convert_items missing_items]
  have ka: "krippendorff_alpha np data Ratio force_vecmath convert_items missing_items
      = alpha_of_units (np_metric_of np Ratio force_vecmath) Ratio ?units ?n"
    using n0 by (simp add: krippendorff_alpha_eq)
  show "krippendorff_alpha np data Ratio force_vecmath convert_items missing_items
      = (if np = None then Inl Metric_raised else Inr NaN)"
  proof (cases np)
    case None
    then have vec: "np_metric_of np Ratio force_vecmath = False"
      by (simp add: np_metric_of_def)
    from xy have "metric_value False Ratio x y = None"
      by (simp add: metric_value_def ratio_metric_def)
    with g have "\<not> within_defined False Ratio ?units"
      unfolding within_defined_def defined_on_def by blast
    then have "alpha_of_units False Ratio ?units ?n = Inl Metric_raised"
      by (simp add: alpha_of_units_eq [OF len n2])
    then show ?thesis
      unfolding ka vec using None by simp
  next
    case (Some masked)
    then have vec: "np_metric_of np Ratio force_vecmath = True"
      by (simp add: np_metric_of_def)
    have defd: "across_defined True Ratio ?units"
      by (simp add: across_defined_def defined_on_def metric_value_def)
    from ratio_metric_np_zero_sum [OF xy] have "\<not> is_finite (the (metric_value True Ratio x y))"
      by (auto simp: metric_value_def)
    then have "alpha_of_units True Ratio ?units ?n = Inr NaN"
      by (rule alpha_of_units_NaN [OF len n2 defd g])
    then show ?thesis
      unfolding ka vec using Some by simp
  qed
qed

theorem ratio_metric_unguarded_witness:
  "ratio_metric (Fin 1) (Fin 3) = Some (Fin (1 / 4))
   \<and> ratio_metric (Fin 2) (Fin (- 2)) = None
   \<and> ratio_metric_np (Fin 2) (Fin (- 2)) = PInf
   \<and> krippendorff_alpha None zero_data Ratio False float_of_cell None = Inl Metric_raised
   \<and> krippendorff_alpha (Some Masked) zero_data Ratio False float_of_cell None = Inr NaN"
proof -
  have s1: "Fin 1 + Fin 3 \<noteq> Fin 0" and s2: "Fin 2 + Fin (- 2) = Fin 0"
    by simp_all
  have v1: "sqr ((Fin 1 - Fin 3) / (Fin 1 + Fin 3)) = Fin (1 / 4)"
    by code_simp
  have v2: "ratio_metric_np (Fin 2) (Fin (- 2)) = PInf"
    by code_simp
  have n: "n_of None zero_data float_of_cell None \<noteq> 0"
    "n_of (Some Masked) zero_data float_of_cell None \<noteq> 0"
    by code_simp+
  have z: "\<exists>g\<in>set (pairable_units None zero_data float_of_cell None).
      \<exists>x\<in>set g. \<exists>y\<in>set g. x + y = Fin 0"
    "\<exists>g\<in>set (pairable_units (Some Masked) zero_data float_of_cell None).
      \<exists>x\<in>set g. \<exists>y\<in>set g. x + y = Fin 0"
    by code_simp+
  from ratio_metric_unguarded [of "Fin 1" "Fin 3" None zero_data float_of_cell None False]
    ratio_metric_unguarded [of "Fin 2" "Fin (- 2)" "Some Masked" zero_data float_of_cell None False]
    s1 s2 v1 v2 n z
  show ?thesis by simp
qed





end
